theory Spec2Isabelle
  imports Main "HOL-Library.Multiset" "HOL-Library.Char_ord" "HOL-Library.List_Lexorder"
    "HOL-Library.Product_Lexorder" "HOL-Library.Sublist"
begin

section \<open>Values read from the source store\<close>

text \<open>
  A column value as the Python sqlite3 driver hands it to the scripts: \<open>None\<close> for SQL NULL,
  a \<open>str\<close> for TEXT, an \<open>int\<close> for INTEGER. The columns of the \<open>raw\<close> table that the
  migration scripts read (id, city, dataset, watermark, payload, inserted_at) hold text,
  integers or NULL.
\<close>

datatype pyval = PyNone | PyStr string | PyInt int

text \<open>\<open>chr(39)\<close>, the single quote.\<close>

definition apostrophe :: char where
  "apostrophe = CHR 0x27"

text \<open>Python's \<open>str()\<close> on these values; integers print in decimal.\<close>

definition digit_char :: "nat \<Rightarrow> char" where
  "digit_char n = char_of (48 + n)"

function str_nat :: "nat \<Rightarrow> string" where
  "str_nat n = (if n < 10 then [digit_char n] else str_nat (n div 10) @ [digit_char (n mod 10)])"
  by pat_completeness auto
termination
  by (relation "measure (\<lambda>n. n)") auto

definition str_int :: "int \<Rightarrow> string" where
  "str_int i = (if i < 0 then CHR ''-'' # str_nat (nat (- i)) else str_nat (nat i))"

fun py_str :: "pyval \<Rightarrow> string" where
  "py_str PyNone = ''None''"
| "py_str (PyStr s) = s"
| "py_str (PyInt i) = str_int i"

text \<open>
  \<open>str.replace(old, new)\<close> where \<open>old\<close> is a single character, the only way the scripts
  call it: every occurrence of the character is replaced, left to right.
\<close>

fun replace_char :: "char \<Rightarrow> string \<Rightarrow> string \<Rightarrow> string" where
  "replace_char c new [] = []"
| "replace_char c new (x # xs) = (if x = c then new else [x]) @ replace_char c new xs"

section \<open>Value Codec\<close>

text \<open>
  \<^verbatim>\<open>
  def escape_sql_string(s):
      if s is None:
          return 'NULL'
      return f"'{str(s).replace(chr(39), chr(39) + chr(39))}'"
  \<close>
\<close>

definition escape_sql_string :: "pyval \<Rightarrow> string" where
  "escape_sql_string s =
     (if s = PyNone then ''NULL''
      else [apostrophe] @ replace_char apostrophe [apostrophe, apostrophe] (py_str s) @ [apostrophe])"

text \<open>
  \<^verbatim>\<open>
  def format_json_field(json_str):
      if json_str is None:
          return 'NULL'
      try:
          parsed = json.loads(json_str)
          json_escaped = json.dumps(parsed).replace("'", "''")
          return f"'{json_escaped}'::jsonb"
      except:
          return "'{}'"
  \<close>
  The \<open>json\<close> module is the Python standard library, not code of the repository, so its two
  functions are parameters: \<open>loads\<close> returns \<open>None\<close> where \<open>json.loads\<close> raises
  (the text is not parseable as JSON), \<open>dumps\<close> serialises a parsed object. \<open>json.loads\<close>
  applied to an \<open>int\<close> raises \<open>TypeError\<close>, which the bare \<open>except\<close> catches as well.
\<close>

definition format_json_field ::
  "(string \<Rightarrow> 'j option) \<Rightarrow> ('j \<Rightarrow> string) \<Rightarrow> pyval \<Rightarrow> string" where
  "format_json_field loads dumps json_str =
     (case json_str of
        PyNone \<Rightarrow> ''NULL''
      | PyInt i \<Rightarrow> [apostrophe] @ ''{}'' @ [apostrophe]
      | PyStr s \<Rightarrow>
          (case loads s of
             None \<Rightarrow> [apostrophe] @ ''{}'' @ [apostrophe]
           | Some parsed \<Rightarrow>
               [apostrophe] @ replace_char apostrophe [apostrophe, apostrophe] (dumps parsed)
                 @ [apostrophe] @ ''::jsonb''))"

text \<open>
  The decoder of a quoted literal, following the specification's words: strip the outer
  quotes and collapse each doubled quote back to one. It is used only to state the
  round trip of \<open>escape_sql_string\<close>.
\<close>

fun collapse_quotes :: "string \<Rightarrow> string" where
  "collapse_quotes (a # b # xs) =
     (if a = apostrophe \<and> b = apostrophe then apostrophe # collapse_quotes xs
      else a # collapse_quotes (b # xs))"
| "collapse_quotes xs = xs"

definition decode_sql_literal :: "string \<Rightarrow> string option" where
  "decode_sql_literal l =
     (case l of
        [] \<Rightarrow> None
      | c # rest \<Rightarrow>
          (if c = apostrophe \<and> rest \<noteq> [] \<and> last rest = apostrophe
           then Some (collapse_quotes (butlast rest)) else None))"

section \<open>Row Source\<close>

text \<open>
  One row of \<open>SELECT id, city, dataset, watermark, payload, inserted_at\<close>. The scripts read
  it as a tuple, \<open>row[0]\<close> to \<open>row[5]\<close>.
\<close>

record raw_row =
  r_id :: pyval
  r_city :: pyval
  r_dataset :: pyval
  r_watermark :: pyval
  r_payload :: pyval
  r_inserted_at :: pyval

text \<open>
  \<open>LIMIT ? OFFSET ?\<close> bound to \<open>(batch_size, offset)\<close>, applied to the rows of the result
  in order. SQLite reads a negative offset as 0 and a negative limit as no limit; an offset
  at or past the end leaves no rows, which is not an error.
\<close>

definition sql_limit_offset :: "int \<Rightarrow> int \<Rightarrow> 'a list \<Rightarrow> 'a list" where
  "sql_limit_offset lim off rows =
     (let rest = drop (nat off) rows in if lim < 0 then rest else take (nat lim) rest)"

text \<open>
  \<open>ORDER BY id\<close>: SQLite puts NULL first, then integers by value, then text compared byte
  by byte. The key below has this order under the lexicographic orders on pairs and lists.
\<close>

fun sql_order_key :: "pyval \<Rightarrow> nat \<times> int \<times> string" where
  "sql_order_key PyNone = (0, 0, [])"
| "sql_order_key (PyInt i) = (1, i, [])"
| "sql_order_key (PyStr s) = (2, 0, s)"

definition order_by_id :: "raw_row list \<Rightarrow> raw_row list" where
  "order_by_id rows = sort_key (\<lambda>r. sql_order_key (r_id r)) rows"

text \<open>
  The two page queries of the scripts. A table is given as the list of its rows in the
  order in which the engine scans it.
  \<^item> \<open>mcp-auto-execute.py\<close> and \<open>auto-mcp-turbo.py\<close>:
    \<open>SELECT ... FROM raw ORDER BY id LIMIT ? OFFSET ?\<close>;
  \<^item> \<open>optimized-migrate.py\<close> and \<open>auto-migrate.py\<close>:
    \<open>SELECT ... FROM <table> LIMIT ? OFFSET ?\<close>, with no ORDER BY clause, so the rows come
    in scan order.
\<close>

definition select_ordered_page :: "raw_row list \<Rightarrow> int \<Rightarrow> int \<Rightarrow> raw_row list" where
  "select_ordered_page scan lim off = sql_limit_offset lim off (order_by_id scan)"

definition select_page :: "raw_row list \<Rightarrow> int \<Rightarrow> int \<Rightarrow> raw_row list" where
  "select_page scan lim off = sql_limit_offset lim off scan"

section \<open>Batch Builder\<close>

text \<open>\<open>sep.join(xs)\<close>.\<close>

fun py_join :: "string \<Rightarrow> string list \<Rightarrow> string" where
  "py_join sep [] = []"
| "py_join sep [x] = x"
| "py_join sep (x # y # ys) = x @ sep @ py_join sep (y # ys)"

definition newline :: string where
  "newline = [CHR 0x0A]"

text \<open>
  What surrounds the scripts: the tables of \<open>data/pipeline.db\<close>, the \<open>json\<close> module, and the
  two execution channels. A channel's answer depends on the moment of the call; the loops
  call it at most once per iteration, so it is indexed by the iteration number
  (\<open>batch_count\<close>) and any sequence of outcomes is some channel.
  \<open>execute_mcp_batch\<close> (mcp-auto-execute.py) returns \<open>(success, output)\<close>, a timeout or any
  exception being \<open>(False, message)\<close>; \<open>execute_via_mcp_auto\<close> (auto-mcp-turbo.py) returns
  the success flag alone.
\<close>

record 'j world =
  tables :: "string \<Rightarrow> raw_row list"
  json_loads :: "string \<Rightarrow> 'j option"
  json_dumps :: "'j \<Rightarrow> string"
  execute_mcp_batch :: "int \<Rightarrow> string \<Rightarrow> bool \<times> string"
  execute_via_mcp_auto :: "int \<Rightarrow> string \<Rightarrow> bool"

text \<open>
  mcp-auto-execute.py, lines 74 to 81, one element of \<open>values_list\<close>:
  \<^verbatim>\<open>
  f"({id_val}, {city_val}, {dataset_val}, {watermark_val}, {payload_val}, {inserted_at_val})"
  \<close>
\<close>

definition values_tuple :: "'j world \<Rightarrow> raw_row \<Rightarrow> string" where
  "values_tuple w row =
     ''('' @ escape_sql_string (r_id row) @ '', '' @ escape_sql_string (r_city row) @ '', ''
       @ escape_sql_string (r_dataset row) @ '', '' @ escape_sql_string (r_watermark row) @ '', ''
       @ format_json_field (json_loads w) (json_dumps w) (r_payload row) @ '', ''
       @ escape_sql_string (r_inserted_at row) @ '')''"

text \<open>
  optimized-migrate.py, lines 72 and 95: the same, except that the last column goes
  through \<open>str()\<close> first, \<open>self.escape_sql_string(str(inserted_at))\<close>.
\<close>

definition values_tuple_str :: "'j world \<Rightarrow> raw_row \<Rightarrow> string" where
  "values_tuple_str w row =
     ''('' @ escape_sql_string (r_id row) @ '', '' @ escape_sql_string (r_city row) @ '', ''
       @ escape_sql_string (r_dataset row) @ '', '' @ escape_sql_string (r_watermark row) @ '', ''
       @ format_json_field (json_loads w) (json_dumps w) (r_payload row) @ '', ''
       @ escape_sql_string (PyStr (py_str (r_inserted_at row))) @ '')''"

definition column_list :: string where
  "column_list = ''(id, city, dataset, watermark, payload, inserted_at)''"

text \<open>
  mcp-auto-execute.py, line 84:
  \<^verbatim>\<open>
  sql = f"INSERT INTO raw (id, city, dataset, watermark, payload, inserted_at) VALUES {','.join(values_list)};"
  \<close>
\<close>

definition insert_statement :: "'j world \<Rightarrow> raw_row list \<Rightarrow> string" where
  "insert_statement w rows =
     ''INSERT INTO raw '' @ column_list @ '' VALUES '' @ py_join '','' (map (values_tuple w) rows)
       @ '';''"

text \<open>
  \<open>generate_and_execute_batch(start_offset, batch_size)\<close> of mcp-auto-execute.py: read the
  page, return \<open>(False, 0, "No more records")\<close> when it is empty, otherwise build the
  statement, send it and return \<open>(success, len(rows), result)\<close>. The first argument is the
  iteration number at which the channel is called.
\<close>

definition generate_and_execute_batch ::
  "'j world \<Rightarrow> int \<Rightarrow> int \<Rightarrow> int \<Rightarrow> bool \<times> int \<times> string" where
  "generate_and_execute_batch w call start_offset batch_size =
     (let rows = select_ordered_page (tables w ''raw'') batch_size start_offset
      in if rows = [] then (False, 0, ''No more records'')
         else (let sql = insert_statement w rows;
                   (success, result) = execute_mcp_batch w call sql
               in (success, int (length rows), result)))"

text \<open>
  \<open>OptimizedMigrator.generate_batch_insert(offset)\<close> of optimized-migrate.py. The envelope
  is the triple-quoted text
  \<^verbatim>\<open>
  BEGIN;
  INSERT INTO raw (id, city, dataset, watermark, payload, inserted_at) VALUES
  {','.join(values_list)};
  COMMIT;
  \<close>
  which starts with a line break. The whole body is inside \<open>try\<close>, and
  \<open>except Exception\<close> returns \<open>(None, 0)\<close>:
  \<^item> for a table name other than \<open>raw\<close> and \<open>normalized\<close> the variable \<open>sql\<close> is unbound
    at the return (\<open>UnboundLocalError\<close>);
  \<^item> \<open>cursor.execute\<close> raises \<open>OverflowError\<close> when a bound parameter, here
    \<open>self.batch_size\<close> or \<open>offset\<close>, is not a signed 64-bit integer. Both come from
    \<open>int(sys.argv[..])\<close> and can be any integer.
  The database file and its two tables are taken to exist.
\<close>

definition fits_int64 :: "int \<Rightarrow> bool" where
  "fits_int64 i = (- (2 ^ 63) \<le> i \<and> i < 2 ^ 63)"

definition envelope :: "'j world \<Rightarrow> string \<Rightarrow> raw_row list \<Rightarrow> string" where
  "envelope w table_name rows =
     newline @ ''BEGIN;'' @ newline @ ''INSERT INTO '' @ table_name @ '' '' @ column_list
       @ '' VALUES'' @ newline @ py_join '','' (map (values_tuple_str w) rows) @ '';'' @ newline
       @ ''COMMIT;''"

definition generate_batch_insert ::
  "'j world \<Rightarrow> string \<Rightarrow> int \<Rightarrow> int \<Rightarrow> string option \<times> int" where
  "generate_batch_insert w table_name batch_size offset =
     (if table_name = ''raw'' then
        (if \<not> (fits_int64 batch_size \<and> fits_int64 offset) then (None, 0)
         else
           (let rows = select_page (tables w ''raw'') batch_size offset
            in if rows = [] then (None, 0)
               else (Some (envelope w ''raw'' rows), int (length rows))))
      else if table_name = ''normalized'' then
        (if \<not> (fits_int64 batch_size \<and> fits_int64 offset) then (None, 0)
         else
           (let rows = select_page (tables w ''normalized'') batch_size offset
            in if rows = [] then (None, 0)
               else (Some (envelope w ''normalized'' rows), int (length rows))))
      else (None, 0))"

text \<open>
  \<open>generate_turbo_batch(start_offset, batch_size)\<close> of auto-mcp-turbo.py. The rows are
  formatted in slices of \<open>chunk_size = 1000\<close>, \<open>rows[i:i+chunk_size]\<close> for
  \<open>i in range(0, len(rows), chunk_size)\<close>, and the slices are put back together with
  \<open>extend\<close>. The statement has a line break after \<open>VALUES \<close>; an empty page gives
  \<open>(None, 0)\<close>.
\<close>

function chunks :: "nat \<Rightarrow> 'a list \<Rightarrow> 'a list list" where
  "chunks n xs = (if n = 0 \<or> xs = [] then [] else take n xs # chunks n (drop n xs))"
  by pat_completeness auto
termination
  by (relation "measure (\<lambda>(n, xs). length xs)") auto

definition generate_turbo_batch :: "'j world \<Rightarrow> int \<Rightarrow> int \<Rightarrow> string option \<times> int" where
  "generate_turbo_batch w start_offset batch_size =
     (let rows = select_ordered_page (tables w ''raw'') batch_size start_offset
      in if rows = [] then (None, 0)
         else (let values_chunks = concat (map (map (values_tuple w)) (chunks 1000 rows));
                   sql = ''INSERT INTO raw '' @ column_list @ '' VALUES '' @ newline
                           @ py_join '','' values_chunks @ '';''
               in (Some sql, int (length rows))))"

text \<open>The statement that \<open>generate_turbo_batch\<close> builds for a page, on its own.\<close>

definition turbo_statement :: "'j world \<Rightarrow> raw_row list \<Rightarrow> string" where
  "turbo_statement w rows =
     ''INSERT INTO raw '' @ column_list @ '' VALUES '' @ newline
       @ py_join '','' (concat (map (map (values_tuple w)) (chunks 1000 rows))) @ '';''"

section \<open>Migration Controller\<close>

text \<open>
  What a loop does to the outside is kept in a journal, oldest entry first:
  \<open>Attempt k b n ok\<close> for a batch fetched at offset \<open>k\<close> with limit \<open>b\<close>, holding \<open>n\<close>
  rows, for which the controller was told \<open>ok\<close>; \<open>Sleep d\<close> for \<open>time.sleep(d)\<close>.
  The \<open>print\<close> calls are left out.
\<close>

datatype event = Attempt int int int bool | Sleep int

text \<open>How an iteration of a \<open>while\<close> loop ends: at the loop head again, or by \<open>break\<close>.\<close>

datatype flow = Continue | Break

text \<open>
  The local variables of the two loops. \<open>continuous_turbo_migrate\<close> has the first four;
  \<open>continuous_auto_migrate\<close> has \<open>consecutive_failures\<close> as well.
\<close>

record loop_state =
  current_offset :: int
  batch_size :: int
  batch_count :: int
  total_processed :: int
  journal :: "event list"

record auto_state = loop_state +
  consecutive_failures :: int

text \<open>
  One iteration of the loop of \<open>continuous_auto_migrate\<close> (mcp-auto-execute.py, lines 110
  to 151):
  \<^verbatim>\<open>
  batch_count += 1
  success, record_count, result = generate_and_execute_batch(current_offset, batch_size)
  if success:
      total_processed += record_count
      current_offset += record_count
      consecutive_failures = 0
      if batch_count % 5 == 0 and batch_size < 10000:
          batch_size = min(batch_size + 1000, 10000)
  else:
      consecutive_failures += 1
      if consecutive_failures >= 3:
          break
      batch_size = max(batch_size // 2, 1000)
      time.sleep(5)
      continue
  time.sleep(1)
  \<close>
\<close>

definition auto_iteration :: "'j world \<Rightarrow> auto_state \<Rightarrow> flow \<times> auto_state" where
  "auto_iteration w s =
     (let s1 = s\<lparr>batch_count := batch_count s + 1\<rparr>;
          (success, record_count, result) =
             generate_and_execute_batch w (batch_count s1) (current_offset s1) (batch_size s1);
          s2 = s1\<lparr>journal := journal s1
                 @ [Attempt (current_offset s1) (batch_size s1) record_count success]\<rparr>
      in if success then
           (let s3 = s2\<lparr>total_processed := total_processed s2 + record_count,
                        current_offset := current_offset s2 + record_count,
                        consecutive_failures := 0\<rparr>;
                s4 = (if batch_count s3 mod 5 = 0 \<and> batch_size s3 < 10000
                      then s3\<lparr>batch_size := min (batch_size s3 + 1000) 10000\<rparr> else s3)
            in (Continue, s4\<lparr>journal := journal s4 @ [Sleep 1]\<rparr>))
         else
           (let s3 = s2\<lparr>consecutive_failures := consecutive_failures s2 + 1\<rparr>
            in if consecutive_failures s3 \<ge> 3 then (Break, s3)
               else (Continue, s3\<lparr>batch_size := max (batch_size s3 div 2) 1000,
                                    journal := journal s3 @ [Sleep 5]\<rparr>)))"

text \<open>
  \<open>while current_offset < target_total\<close>. The loop ends for every world: a successful
  batch holds at least one row and moves the offset towards \<open>target_total\<close>, and a failed
  one either breaks or brings \<open>consecutive_failures\<close> closer to 3.
\<close>

function auto_loop :: "'j world \<Rightarrow> int \<Rightarrow> auto_state \<Rightarrow> auto_state" where
  "auto_loop w target_total s =
     (if current_offset s < target_total then
        (case auto_iteration w s of
           (Break, s') \<Rightarrow> s'
         | (Continue, s') \<Rightarrow> auto_loop w target_total s')
      else s)"
  by pat_completeness auto
termination
proof (relation "measures [\<lambda>(w, t, s). nat (t - current_offset s),
                           \<lambda>(w, t, s). nat (3 - consecutive_failures s)]", goal_cases)
  case 1
  show ?case by simp
next
  case (2 w target_total s x y)
  have g: "fst (generate_and_execute_batch w c k b) \<Longrightarrow>
           0 < fst (snd (generate_and_execute_batch w c k b))" for c k b
    by (auto simp: generate_and_execute_batch_def Let_def split: if_splits prod.splits)
  from 2 show ?case
    using g[of "batch_count s + 1" "current_offset s" "batch_size s"]
    by (auto simp: auto_iteration_def Let_def split: if_splits prod.splits)
qed

text \<open>
  \<open>continuous_auto_migrate()\<close>: \<open>current_offset = 156\<close>, \<open>batch_size = 5000\<close>,
  \<open>target_total = 1736174\<close>, the counters at 0.
\<close>

definition continuous_auto_migrate :: "'j world \<Rightarrow> auto_state" where
  "continuous_auto_migrate w =
     auto_loop w 1736174
       \<lparr>current_offset = 156, batch_size = 5000, batch_count = 0, total_processed = 0,
        journal = [], consecutive_failures = 0\<rparr>"

text \<open>
  One iteration of the loop of \<open>continuous_turbo_migrate\<close> (auto-mcp-turbo.py, lines 141
  to 175):
  \<^verbatim>\<open>
  batch_count += 1
  sql, record_count = generate_turbo_batch(current_offset, batch_size)
  if not sql or record_count == 0:
      break
  success = execute_via_mcp_auto(sql)
  if success:
      total_processed += record_count
      current_offset += record_count
      time.sleep(1)
  else:
      time.sleep(5)
      continue
  \<close>
\<close>

definition turbo_iteration :: "'j world \<Rightarrow> loop_state \<Rightarrow> flow \<times> loop_state" where
  "turbo_iteration w s =
     (let s1 = s\<lparr>batch_count := batch_count s + 1\<rparr>;
          (sql, record_count) = generate_turbo_batch w (current_offset s1) (batch_size s1)
      in case sql of
           None \<Rightarrow> (Break, s1)
         | Some q \<Rightarrow>
             if q = [] \<or> record_count = 0 then (Break, s1)
             else
               (let success = execute_via_mcp_auto w (batch_count s1) q;
                    s2 = s1\<lparr>journal := journal s1
                           @ [Attempt (current_offset s1) (batch_size s1) record_count success]\<rparr>
                in if success then
                     (Continue, s2\<lparr>total_processed := total_processed s2 + record_count,
                                    current_offset := current_offset s2 + record_count,
                                    journal := journal s2 @ [Sleep 1]\<rparr>)
                   else (Continue, s2\<lparr>journal := journal s2 @ [Sleep 5]\<rparr>)))"

text \<open>
  This loop retries a failed batch without a bound, so it runs forever on a channel that
  never succeeds. It is given fuel, one unit per iteration; \<open>None\<close> means that the fuel
  ran out before the loop ended.
\<close>

fun turbo_loop :: "nat \<Rightarrow> 'j world \<Rightarrow> int \<Rightarrow> loop_state \<Rightarrow> loop_state option" where
  "turbo_loop 0 w target_total s = None"
| "turbo_loop (Suc fuel) w target_total s =
     (if current_offset s < target_total then
        (case turbo_iteration w s of
           (Break, s') \<Rightarrow> Some s'
         | (Continue, s') \<Rightarrow> turbo_loop fuel w target_total s')
      else Some s)"

definition continuous_turbo_migrate :: "nat \<Rightarrow> 'j world \<Rightarrow> loop_state option" where
  "continuous_turbo_migrate fuel w =
     turbo_loop fuel w 1736174
       \<lparr>current_offset = 156, batch_size = 15000, batch_count = 0, total_processed = 0,
        journal = []\<rparr>"

text \<open>
  Where the same loop stands after at most \<open>fuel\<close> iterations, whether it has ended by
  then or not. It is what a run that never ends can be observed through.
\<close>

fun turbo_prefix :: "nat \<Rightarrow> 'j world \<Rightarrow> int \<Rightarrow> loop_state \<Rightarrow> loop_state" where
  "turbo_prefix 0 w target_total s = s"
| "turbo_prefix (Suc fuel) w target_total s =
     (if current_offset s < target_total then
        (case turbo_iteration w s of
           (Break, s') \<Rightarrow> s'
         | (Continue, s') \<Rightarrow> turbo_prefix fuel w target_total s')
      else s)"

definition continuous_turbo_prefix :: "nat \<Rightarrow> 'j world \<Rightarrow> loop_state" where
  "continuous_turbo_prefix fuel w =
     turbo_prefix fuel w 1736174
       \<lparr>current_offset = 156, batch_size = 15000, batch_count = 0, total_processed = 0,
        journal = []\<rparr>"

section \<open>Reading a journal\<close>

text \<open>The number of rows in the batches that were reported successful.\<close>

fun acknowledged :: "event list \<Rightarrow> int" where
  "acknowledged [] = 0"
| "acknowledged (Attempt k b n ok # es) = (if ok then n else 0) + acknowledged es"
| "acknowledged (Sleep d # es) = acknowledged es"

text \<open>
  \<open>offsets_follow k0 j\<close>: the first batch of \<open>j\<close> is fetched at \<open>k0\<close>; the batch after a
  failed one is fetched at the same offset, the batch after a successful one of \<open>n\<close> rows
  at that offset plus \<open>n\<close>.
\<close>

fun offsets_follow :: "int \<Rightarrow> event list \<Rightarrow> bool" where
  "offsets_follow k0 [] = True"
| "offsets_follow k0 (Attempt k b n ok # es) =
     (k = k0 \<and> offsets_follow (if ok then k0 + n else k0) es)"
| "offsets_follow k0 (Sleep d # es) = offsets_follow k0 es"

text \<open>The row count of an attempt is the length of the page read at its offset and limit.\<close>

fun page_counted :: "'j world \<Rightarrow> event \<Rightarrow> bool" where
  "page_counted w (Attempt k b n ok) =
     (n = int (length (select_ordered_page (tables w ''raw'') b k)))"
| "page_counted w (Sleep d) = True"

fun limit_within :: "int \<Rightarrow> int \<Rightarrow> event \<Rightarrow> bool" where
  "limit_within lo hi (Attempt k b n ok) = (lo \<le> b \<and> b \<le> hi)"
| "limit_within lo hi (Sleep d) = True"

text \<open>The delays slept right after a failed batch, in order.\<close>

fun retry_delays :: "event list \<Rightarrow> int list" where
  "retry_delays (Attempt k b n ok # Sleep d # es) =
     (if ok then retry_delays es else d # retry_delays es)"
| "retry_delays (e # es) = retry_delays es"
| "retry_delays [] = []"

text \<open>The number of batches in a journal.\<close>

fun attempts :: "event list \<Rightarrow> int" where
  "attempts [] = 0"
| "attempts (Attempt k b n ok # es) = 1 + attempts es"
| "attempts (Sleep d # es) = attempts es"

text \<open>
  \<open>answers_auto w c j\<close>: the flag of every batch of \<open>j\<close> is what the Executor Client said.
  The batches of \<open>j\<close> are those of the iterations \<open>c + 1\<close>, \<open>c + 2\<close>, ...; the flag of a
  batch is true exactly when its page was not empty and \<open>execute_mcp_batch\<close>, called at
  that iteration with the statement built from that page, reported success.
  \<open>answers_turbo\<close> is the same for \<open>execute_via_mcp_auto\<close>, where a batch is recorded
  only for a page that is not empty.
\<close>

fun answers_auto :: "'j world \<Rightarrow> int \<Rightarrow> event list \<Rightarrow> bool" where
  "answers_auto w c [] = True"
| "answers_auto w c (Attempt k b n ok # es) =
     (ok = (select_ordered_page (tables w ''raw'') b k \<noteq> []
            \<and> fst (execute_mcp_batch w (c + 1)
                      (insert_statement w (select_ordered_page (tables w ''raw'') b k))))
      \<and> answers_auto w (c + 1) es)"
| "answers_auto w c (Sleep d # es) = answers_auto w c es"

fun answers_turbo :: "'j world \<Rightarrow> int \<Rightarrow> event list \<Rightarrow> bool" where
  "answers_turbo w c [] = True"
| "answers_turbo w c (Attempt k b n ok # es) =
     (select_ordered_page (tables w ''raw'') b k \<noteq> []
      \<and> ok = execute_via_mcp_auto w (c + 1)
                 (turbo_statement w (select_ordered_page (tables w ''raw'') b k))
      \<and> answers_turbo w (c + 1) es)"
| "answers_turbo w c (Sleep d # es) = answers_turbo w c es"

text \<open>
  The bookkeeping of a loop that started at offset \<open>k0\<close> with an empty journal: the
  offsets of its batches follow each other as above, its offset is \<open>k0\<close> plus the rows of
  the successful batches, \<open>total_processed\<close> is the number of those rows, and every batch
  is counted by its page.
\<close>

definition ledger :: "'j world \<Rightarrow> int \<Rightarrow> 'a loop_state_scheme \<Rightarrow> bool" where
  "ledger w k0 s =
     (offsets_follow k0 (journal s) \<and> current_offset s = k0 + acknowledged (journal s)
      \<and> total_processed s = acknowledged (journal s)
      \<and> list_all (page_counted w) (journal s))"

definition within_bounds :: "'a loop_state_scheme \<Rightarrow> bool" where
  "within_bounds s =
     (1000 \<le> batch_size s \<and> batch_size s \<le> 10000
      \<and> list_all (limit_within 1000 10000) (journal s))"

text \<open>
  The flags of a journal are the Executor Client's answers, and the iteration counter is
  the number of batches so far.
\<close>

definition told_auto :: "'j world \<Rightarrow> auto_state \<Rightarrow> bool" where
  "told_auto w s = (answers_auto w 0 (journal s) \<and> batch_count s = attempts (journal s))"

definition told_turbo :: "'j world \<Rightarrow> loop_state \<Rightarrow> bool" where
  "told_turbo w s = (answers_turbo w 0 (journal s) \<and> batch_count s = attempts (journal s))"

section \<open>Concrete worlds\<close>

text \<open>
  Rows, tables and worlds for the concrete runs below. \<open>sample_table n\<close> has the ids
  \<open>0\<close> to \<open>n - 1\<close>. In \<open>sample_world rows ok\<close> the \<open>raw\<close> table is \<open>rows\<close>, the only JSON
  text that parses is \<open>null\<close>, and the channel succeeds at iteration \<open>n\<close> when \<open>ok n\<close>;
  \<open>execute_mcp_batch\<close> gives the statement it received back as its output.
\<close>




definition sample_row :: "pyval \<Rightarrow> raw_row" where
  "sample_row k = \<lparr>r_id = k, r_city = PyStr ''chicago'', r_dataset = PyStr ''permits'',
     r_watermark = PyNone, r_payload = PyStr ''null'', r_inserted_at = PyStr ''2024-01-01''\<rparr>"

definition sample_table :: "nat \<Rightarrow> raw_row list" where
  "sample_table n = map (\<lambda>i. sample_row (PyInt (int i))) [0..<n]"

definition sample_world :: "raw_row list \<Rightarrow> (int \<Rightarrow> bool) \<Rightarrow> unit world" where
  "sample_world rows ok =
     \<lparr>tables = (\<lambda>t. if t = ''raw'' then rows else []),
      json_loads = (\<lambda>t. if t = ''null'' then Some () else None),
      json_dumps = (\<lambda>u. ''null''),
      execute_mcp_batch = (\<lambda>n sql. (ok n, sql)),
      execute_via_mcp_auto = (\<lambda>n sql. ok n)\<rparr>"

section \<open>Properties of the Value Codec\<close>

lemma replace_char_concat:
  "replace_char c new s = concat (map (\<lambda>x. if x = c then new else [x]) s)"
  by (induction s) auto

lemma collapse_quotes_replace:
  "collapse_quotes (replace_char apostrophe [apostrophe, apostrophe] s) = s"
proof (induction s)
  case Nil
  then show ?case by simp
next
  case (Cons x xs)
  show ?case
  proof (cases "x = apostrophe")
    case True
    with Cons show ?thesis by simp
  next
    case False
    with Cons show ?thesis
      by (cases "replace_char apostrophe [apostrophe, apostrophe] xs") auto
  qed
qed

lemma replace_char_keeps_others:
  "filter (\<lambda>x. x \<noteq> c) (replace_char c [c, c] s) = filter (\<lambda>x. x \<noteq> c) s"
  by (induction s) auto

lemma replace_char_doubles:
  "length (filter (\<lambda>x. x = c) (replace_char c [c, c] s)) = 2 * length (filter (\<lambda>x. x = c) s)"
  by (induction s) auto

text \<open>
  Claim C6. For every string \<open>s\<close>, the literal built by \<open>escape_sql_string\<close> is \<open>s\<close> between
  two quotes with each quote character of \<open>s\<close> replaced by two and every other character
  kept as it is, in order; stripping the outer quotes and collapsing the doubled quotes
  gives back exactly \<open>s\<close>.
\<close>

theorem escape_sql_string_round_trip:
  "decode_sql_literal (escape_sql_string (PyStr s)) = Some s
   \<and> escape_sql_string (PyStr s) =
       [apostrophe] @ concat (map (\<lambda>x. if x = apostrophe then [apostrophe, apostrophe] else [x]) s)
         @ [apostrophe]
   \<and> filter (\<lambda>x. x \<noteq> apostrophe) (butlast (tl (escape_sql_string (PyStr s))))
       = filter (\<lambda>x. x \<noteq> apostrophe) s
   \<and> length (filter (\<lambda>x. x = apostrophe) (butlast (tl (escape_sql_string (PyStr s)))))
       = 2 * length (filter (\<lambda>x. x = apostrophe) s)"
proof -
  let ?body = "replace_char apostrophe [apostrophe, apostrophe] s"
  have e: "escape_sql_string (PyStr s) = apostrophe # ?body @ [apostrophe]"
    by (simp add: escape_sql_string_def)
  have b: "butlast (tl (escape_sql_string (PyStr s))) = ?body"
    by (simp add: e butlast_append)
  have d: "decode_sql_literal (escape_sql_string (PyStr s)) = Some s"
    by (simp add: e decode_sql_literal_def collapse_quotes_replace butlast_append)
  have c: "escape_sql_string (PyStr s) =
       [apostrophe] @ concat (map (\<lambda>x. if x = apostrophe then [apostrophe, apostrophe] else [x]) s)
         @ [apostrophe]"
    by (simp add: e replace_char_concat)
  have k: "filter (\<lambda>x. x \<noteq> apostrophe) (butlast (tl (escape_sql_string (PyStr s))))
       = filter (\<lambda>x. x \<noteq> apostrophe) s"
    by (simp only: b replace_char_keeps_others)
  have n: "length (filter (\<lambda>x. x = apostrophe) (butlast (tl (escape_sql_string (PyStr s)))))
       = 2 * length (filter (\<lambda>x. x = apostrophe) s)"
    by (simp only: b replace_char_doubles)
  from d c k n show ?thesis by blast
qed




text \<open>
  Claim C10. The text \<open>null\<close> is valid JSON: \<open>json.loads\<close> accepts it and \<open>json.dumps\<close>
  prints the parsed object as \<open>null\<close> again. \<open>format_json_field\<close> then returns the quoted
  literal \<open>null\<close> followed by the cast marker \<open>::jsonb\<close>. The unquoted \<open>NULL\<close> is returned
  for the absent field \<open>None\<close> and for no other input.
\<close>

theorem format_json_field_null_text:
  assumes "loads ''null'' = Some v" and "dumps v = ''null''"
  shows "format_json_field loads dumps (PyStr ''null'')
           = [apostrophe] @ ''null'' @ [apostrophe] @ ''::jsonb''
         \<and> format_json_field loads dumps (PyStr ''null'') \<noteq> ''NULL''
         \<and> (\<forall>x. (format_json_field loads dumps x = ''NULL'') = (x = PyNone))"
proof -
  have a: "format_json_field loads dumps (PyStr ''null'')
           = [apostrophe] @ ''null'' @ [apostrophe] @ ''::jsonb''"
    using assms by (simp add: format_json_field_def apostrophe_def)
  have n: "(format_json_field loads dumps x = ''NULL'') = (x = PyNone)" for x
    by (cases x) (auto simp: format_json_field_def apostrophe_def split: option.splits)
  show ?thesis using a n by (simp add: apostrophe_def)
qed

theorem format_json_field_null_text_witness:
  "(\<lambda>t. if t = ''null'' then Some () else None) ''null'' = Some ()
   \<and> (\<lambda>u::unit. ''null'') () = ''null''
   \<and> format_json_field (\<lambda>t. if t = ''null'' then Some () else None) (\<lambda>u. ''null'')
        (PyStr ''null'') = [apostrophe] @ ''null'' @ [apostrophe] @ ''::jsonb''
   \<and> format_json_field (\<lambda>t. if t = ''null'' then Some () else None) (\<lambda>u. ''null'')
        PyNone = ''NULL''"
  using format_json_field_null_text
    [of "\<lambda>t. if t = ''null'' then Some () else None" "()" "\<lambda>u. ''null''"]
  by simp

section \<open>Properties of the Row Source\<close>




lemma page_past_end_is_empty:
  assumes "int (length scan) \<le> off"
  shows "select_ordered_page scan lim off = [] \<and> select_page scan lim off = []"
  using assms
  by (simp add: select_ordered_page_def select_page_def sql_limit_offset_def order_by_id_def)




section \<open>Properties of the Batch Builder\<close>

lemma sample_envelope_text:
  "envelope (sample_world [sample_row (PyStr ''a'')] (\<lambda>n. True)) ''raw'' [sample_row (PyStr ''a'')]
     = CHR 0x0A # ''BEGIN;'' @ CHR 0x0A
         # ''INSERT INTO raw (id, city, dataset, watermark, payload, inserted_at) VALUES''
         @ CHR 0x0A # ''('' @ CHR 0x27 # ''a'' @ CHR 0x27 # '', '' @ CHR 0x27 # ''chicago''
         @ CHR 0x27 # '', '' @ CHR 0x27 # ''permits'' @ CHR 0x27 # '', NULL, '' @ CHR 0x27
         # ''null'' @ CHR 0x27 # ''::jsonb, '' @ CHR 0x27 # ''2024-01-01'' @ CHR 0x27 # '');''
         @ CHR 0x0A # ''COMMIT;''"
  by (simp add: envelope_def sample_world_def sample_row_def values_tuple_str_def
      escape_sql_string_def format_json_field_def column_list_def newline_def apostrophe_def)

lemma sample_statement_text:
  "insert_statement (sample_world [sample_row (PyStr ''a'')] (\<lambda>n. True)) [sample_row (PyStr ''a'')]
     = ''INSERT INTO raw (id, city, dataset, watermark, payload, inserted_at) VALUES ''
         @ ''('' @ CHR 0x27 # ''a'' @ CHR 0x27 # '', '' @ CHR 0x27 # ''chicago''
         @ CHR 0x27 # '', '' @ CHR 0x27 # ''permits'' @ CHR 0x27 # '', NULL, '' @ CHR 0x27
         # ''null'' @ CHR 0x27 # ''::jsonb, '' @ CHR 0x27 # ''2024-01-01'' @ CHR 0x27 # '');''"
  by (simp add: insert_statement_def sample_world_def sample_row_def values_tuple_def
      escape_sql_string_def format_json_field_def column_list_def newline_def apostrophe_def)

lemma sample_envelope_no_conflict:
  "\<not> sublist ''ON CONFLICT''
       (envelope (sample_world [sample_row (PyStr ''a'')] (\<lambda>n. True)) ''raw''
          [sample_row (PyStr ''a'')])"
  unfolding sample_envelope_text by (simp add: sublist_code)

lemma sample_statement_no_conflict:
  "\<not> sublist ''ON CONFLICT''
       (insert_statement (sample_world [sample_row (PyStr ''a'')] (\<lambda>n. True))
          [sample_row (PyStr ''a'')])"
  unfolding sample_statement_text by (simp add: sublist_code)

lemma sample_statement_no_begin:
  "\<not> sublist ''BEGIN;''
       (insert_statement (sample_world [sample_row (PyStr ''a'')] (\<lambda>n. True))
          [sample_row (PyStr ''a'')])"
  unfolding sample_statement_text by (simp add: sublist_code)

lemma sample_generate_batch_insert:
  "generate_batch_insert (sample_world [sample_row (PyStr ''a'')] (\<lambda>n. True)) ''raw'' 25000 0
     = (Some (envelope (sample_world [sample_row (PyStr ''a'')] (\<lambda>n. True)) ''raw''
                [sample_row (PyStr ''a'')]), 1)"
  by (simp add: generate_batch_insert_def select_page_def sql_limit_offset_def Let_def
        fits_int64_def)
     (simp add: sample_world_def)

lemma sample_generate_and_execute_batch:
  "generate_and_execute_batch (sample_world [sample_row (PyStr ''a'')] (\<lambda>n. True)) 1 0 5000
     = (True, 1, insert_statement (sample_world [sample_row (PyStr ''a'')] (\<lambda>n. True))
                   [sample_row (PyStr ''a'')])"
  by (simp add: generate_and_execute_batch_def select_ordered_page_def order_by_id_def
        sql_limit_offset_def Let_def)
     (simp add: sample_world_def order_by_id_def select_ordered_page_def sql_limit_offset_def)

text \<open>
  Claim C2, as stated, fails. For a table of one row, the envelope of
  \<open>generate_batch_insert\<close> (optimized-migrate.py) has no \<open>ON CONFLICT\<close> in it, and the
  statement that \<open>generate_and_execute_batch\<close> (mcp-auto-execute.py) sends has neither
  \<open>ON CONFLICT\<close> nor \<open>BEGIN;\<close>.
\<close>

theorem envelope_without_conflict_clause:
  "generate_batch_insert (sample_world [sample_row (PyStr ''a'')] (\<lambda>n. True)) ''raw'' 25000 0
     = (Some (envelope (sample_world [sample_row (PyStr ''a'')] (\<lambda>n. True)) ''raw''
                [sample_row (PyStr ''a'')]), 1)
   \<and> \<not> sublist ''ON CONFLICT''
         (envelope (sample_world [sample_row (PyStr ''a'')] (\<lambda>n. True)) ''raw''
            [sample_row (PyStr ''a'')])
   \<and> generate_and_execute_batch (sample_world [sample_row (PyStr ''a'')] (\<lambda>n. True)) 1 0 5000
     = (True, 1, insert_statement (sample_world [sample_row (PyStr ''a'')] (\<lambda>n. True))
                   [sample_row (PyStr ''a'')])
   \<and> \<not> sublist ''ON CONFLICT''
         (insert_statement (sample_world [sample_row (PyStr ''a'')] (\<lambda>n. True))
            [sample_row (PyStr ''a'')])
   \<and> \<not> sublist ''BEGIN;''
         (insert_statement (sample_world [sample_row (PyStr ''a'')] (\<lambda>n. True))
            [sample_row (PyStr ''a'')])"
  using sample_generate_batch_insert sample_envelope_no_conflict
    sample_generate_and_execute_batch sample_statement_no_conflict sample_statement_no_begin
  by blast

lemma generate_batch_insert_overflow:
  "\<not> (fits_int64 b \<and> fits_int64 k) \<Longrightarrow> generate_batch_insert w table_name b k = (None, 0)"
  by (simp add: generate_batch_insert_def)

text \<open>
  Claim C2, amended. For every non-empty page of the \<open>raw\<close> or \<open>normalized\<close> table, read
  with a limit and an offset that are signed 64-bit integers, the envelope of
  \<open>generate_batch_insert\<close> is a line break, \<open>BEGIN;\<close>, a line break,
  \<open>INSERT INTO <table> (<columns>) VALUES\<close>, a line break, the rows joined by commas,
  \<open>;\<close>, a line break and \<open>COMMIT;\<close>: one multi-row insert between explicit begin and
  commit markers, with no conflict clause. For every such page, the statement that
  \<open>generate_and_execute_batch\<close> sends is the bare
  \<open>INSERT INTO raw (<columns>) VALUES <row>,<row>,...;\<close>.
\<close>

theorem envelope_shape:
  "((table_name = ''raw'' \<or> table_name = ''normalized'')
      \<and> fits_int64 b \<and> fits_int64 k
      \<and> select_page (tables w table_name) b k \<noteq> []
     \<longrightarrow> generate_batch_insert w table_name b k =
           (Some (newline @ ''BEGIN;'' @ newline @ ''INSERT INTO '' @ table_name
                  @ '' (id, city, dataset, watermark, payload, inserted_at) VALUES'' @ newline
                  @ py_join '',''
                      (map (values_tuple_str w) (select_page (tables w table_name) b k))
                  @ '';'' @ newline @ ''COMMIT;''),
            int (length (select_page (tables w table_name) b k))))
   \<and> (fits_int64 b \<and> fits_int64 k
      \<and> select_ordered_page (tables w ''raw'') b k \<noteq> []
     \<longrightarrow> generate_and_execute_batch w c k b =
           (fst (execute_mcp_batch w c
                  (''INSERT INTO raw (id, city, dataset, watermark, payload, inserted_at) VALUES ''
                   @ py_join '',''
                       (map (values_tuple w) (select_ordered_page (tables w ''raw'') b k))
                   @ '';'')),
            int (length (select_ordered_page (tables w ''raw'') b k)),
            snd (execute_mcp_batch w c
                  (''INSERT INTO raw (id, city, dataset, watermark, payload, inserted_at) VALUES ''
                   @ py_join '',''
                       (map (values_tuple w) (select_ordered_page (tables w ''raw'') b k))
                   @ '';''))))"
proof -
  have a: "generate_batch_insert w table_name b k =
           (Some (newline @ ''BEGIN;'' @ newline @ ''INSERT INTO '' @ table_name
                  @ '' (id, city, dataset, watermark, payload, inserted_at) VALUES'' @ newline
                  @ py_join '',''
                      (map (values_tuple_str w) (select_page (tables w table_name) b k))
                  @ '';'' @ newline @ ''COMMIT;''),
            int (length (select_page (tables w table_name) b k)))"
    if "table_name = ''raw'' \<or> table_name = ''normalized''" "fits_int64 b" "fits_int64 k"
       "select_page (tables w table_name) b k \<noteq> []"
    using that
    by (auto simp: generate_batch_insert_def envelope_def column_list_def Let_def)
  have g: "generate_and_execute_batch w c k b =
           (fst (execute_mcp_batch w c
                  (''INSERT INTO raw (id, city, dataset, watermark, payload, inserted_at) VALUES ''
                   @ py_join '',''
                       (map (values_tuple w) (select_ordered_page (tables w ''raw'') b k))
                   @ '';'')),
            int (length (select_ordered_page (tables w ''raw'') b k)),
            snd (execute_mcp_batch w c
                  (''INSERT INTO raw (id, city, dataset, watermark, payload, inserted_at) VALUES ''
                   @ py_join '',''
                       (map (values_tuple w) (select_ordered_page (tables w ''raw'') b k))
                   @ '';'')))"
    if "select_ordered_page (tables w ''raw'') b k \<noteq> []"
    using that
    by (auto simp: generate_and_execute_batch_def insert_statement_def column_list_def Let_def
        split: prod.splits)
  show ?thesis using a g by blast
qed

theorem envelope_shape_witness:
  "fits_int64 5000 \<and> fits_int64 0
   \<and> select_page
        (tables (sample_world [sample_row (PyStr ''a''), sample_row (PyStr ''b'')] (\<lambda>n. True))
           ''raw'') 5000 0
     = [sample_row (PyStr ''a''), sample_row (PyStr ''b'')]
   \<and> generate_batch_insert
        (sample_world [sample_row (PyStr ''a''), sample_row (PyStr ''b'')] (\<lambda>n. True))
        ''raw'' 5000 0
     = (Some (newline @ ''BEGIN;'' @ newline
              @ ''INSERT INTO raw (id, city, dataset, watermark, payload, inserted_at) VALUES''
              @ newline
              @ values_tuple_str
                  (sample_world [sample_row (PyStr ''a''), sample_row (PyStr ''b'')] (\<lambda>n. True))
                  (sample_row (PyStr ''a''))
              @ '',''
              @ values_tuple_str
                  (sample_world [sample_row (PyStr ''a''), sample_row (PyStr ''b'')] (\<lambda>n. True))
                  (sample_row (PyStr ''b''))
              @ '';'' @ newline @ ''COMMIT;''), 2)
   \<and> select_ordered_page
        (tables (sample_world [sample_row (PyStr ''a''), sample_row (PyStr ''b'')] (\<lambda>n. True))
           ''raw'') 5000 0
     = [sample_row (PyStr ''a''), sample_row (PyStr ''b'')]
   \<and> generate_and_execute_batch
        (sample_world [sample_row (PyStr ''a''), sample_row (PyStr ''b'')] (\<lambda>n. True)) 1 0 5000
     = (True, 2,
        ''INSERT INTO raw (id, city, dataset, watermark, payload, inserted_at) VALUES ''
        @ values_tuple
            (sample_world [sample_row (PyStr ''a''), sample_row (PyStr ''b'')] (\<lambda>n. True))
            (sample_row (PyStr ''a''))
        @ '',''
        @ values_tuple
            (sample_world [sample_row (PyStr ''a''), sample_row (PyStr ''b'')] (\<lambda>n. True))
            (sample_row (PyStr ''b''))
        @ '';'')"
proof -
  let ?w = "sample_world [sample_row (PyStr ''a''), sample_row (PyStr ''b'')] (\<lambda>n. True)"
  have f: "fits_int64 5000" "fits_int64 0" by (simp_all add: fits_int64_def)
  have t: "tables ?w ''raw'' = [sample_row (PyStr ''a''), sample_row (PyStr ''b'')]"
    by (simp add: sample_world_def)
  have p: "select_page (tables ?w ''raw'') 5000 0
             = [sample_row (PyStr ''a''), sample_row (PyStr ''b'')]"
    by (simp add: t select_page_def sql_limit_offset_def)
  have o: "order_by_id [sample_row (PyStr ''a''), sample_row (PyStr ''b'')]
             = [sample_row (PyStr ''a''), sample_row (PyStr ''b'')]"
    by code_simp
  have q: "select_ordered_page (tables ?w ''raw'') 5000 0
             = [sample_row (PyStr ''a''), sample_row (PyStr ''b'')]"
    by (simp add: t select_ordered_page_def o sql_limit_offset_def)
  have e: "execute_mcp_batch ?w c x = (True, x)" for c x
    by (simp add: sample_world_def)
  show ?thesis
    using envelope_shape[of "''raw''" 5000 0 ?w 1] f p q
    by (simp add: e)
qed

section \<open>Properties of the Migration Controller\<close>

subsection \<open>Loop invariants\<close>

lemma generate_and_execute_batch_count:
  "generate_and_execute_batch w c k b = (ok, n, r) \<Longrightarrow>
     n = int (length (select_ordered_page (tables w ''raw'') b k)) \<and> (ok \<longrightarrow> 0 < n)"
  by (auto simp: generate_and_execute_batch_def Let_def split: if_splits prod.splits)

lemma auto_loop_invariant:
  assumes "\<And>s f s'. P s \<Longrightarrow> auto_iteration w s = (f, s') \<Longrightarrow> P s'"
    and "P s"
  shows "P (auto_loop w target_total s)"
  using assms
proof (induction w target_total s rule: auto_loop.induct)
  case (1 w target_total s)
  note step = "1.prems"(1) and init = "1.prems"(2)
  show ?case
  proof (cases "current_offset s < target_total")
    case False
    then show ?thesis using init by simp
  next
    case True
    obtain f s' where it: "auto_iteration w s = (f, s')" by (cases "auto_iteration w s")
    have p': "P s'" using step[OF init it] .
    show ?thesis
    proof (cases f)
      case Break
      then show ?thesis using True it p' by simp
    next
      case Continue
      have "P (auto_loop w target_total s')"
      proof (rule "1.IH"[OF True it[symmetric] Continue])
        show "P s'" by (rule p')
        show "\<And>s f s'. P s \<Longrightarrow> auto_iteration w s = (f, s') \<Longrightarrow> P s'"
          by (rule step)
      qed
      then show ?thesis using True it Continue by simp
    qed
  qed
qed

lemma turbo_loop_invariant:
  assumes "\<And>s f s'. P s \<Longrightarrow> turbo_iteration w s = (f, s') \<Longrightarrow> P s'"
    and "P s" and "turbo_loop fuel w target_total s = Some s'"
  shows "P s'"
  using assms
proof (induction fuel arbitrary: s)
  case 0
  then show ?case by simp
next
  case (Suc fuel)
  note step = Suc.prems(1) and init = Suc.prems(2) and run = Suc.prems(3)
  show ?case
  proof (cases "current_offset s < target_total")
    case False
    then show ?thesis using init run by simp
  next
    case True
    obtain f s1 where it: "turbo_iteration w s = (f, s1)" by (cases "turbo_iteration w s")
    have p1: "P s1" using step[OF init it] .
    show ?thesis
    proof (cases f)
      case Break
      then show ?thesis using True it p1 run by simp
    next
      case Continue
      then have r: "turbo_loop fuel w target_total s1 = Some s'" using True it run by simp
      show ?thesis
      proof (rule Suc.IH)
        show "P s1" by (rule p1)
        show "turbo_loop fuel w target_total s1 = Some s'" by (rule r)
        show "\<And>s f s'. P s \<Longrightarrow> turbo_iteration w s = (f, s') \<Longrightarrow> P s'"
          by (rule step)
      qed
    qed
  qed
qed

lemma acknowledged_append: "acknowledged (xs @ ys) = acknowledged xs + acknowledged ys"
  by (induction xs rule: acknowledged.induct) auto

lemma offsets_follow_append:
  "offsets_follow k0 (xs @ ys) =
     (offsets_follow k0 xs \<and> offsets_follow (k0 + acknowledged xs) ys)"
  by (induction k0 xs rule: offsets_follow.induct) (auto simp: algebra_simps)

lemma auto_iteration_ledger:
  assumes "ledger w k0 s" and "auto_iteration w s = (f, s')"
  shows "ledger w k0 s'"
proof -
  obtain ok n r where g: "generate_and_execute_batch w (batch_count s + 1) (current_offset s)
      (batch_size s) = (ok, n, r)"
    by (cases "generate_and_execute_batch w (batch_count s + 1) (current_offset s) (batch_size s)")
  note c = generate_and_execute_batch_count[OF g]
  show ?thesis
    using assms g c
    by (auto simp: ledger_def auto_iteration_def Let_def offsets_follow_append
        acknowledged_append split: if_splits)
qed

lemma generate_turbo_batch_count:
  "generate_turbo_batch w k b = (sql, n) \<Longrightarrow>
     n = int (length (select_ordered_page (tables w ''raw'') b k))"
  by (auto simp: generate_turbo_batch_def Let_def split: if_splits)

lemma turbo_iteration_ledger:
  assumes "ledger w k0 s" and "turbo_iteration w s = (f, s')"
  shows "ledger w k0 s'"
proof -
  obtain sql n where g: "generate_turbo_batch w (current_offset s) (batch_size s) = (sql, n)"
    by (cases "generate_turbo_batch w (current_offset s) (batch_size s)")
  note c = generate_turbo_batch_count[OF g]
  show ?thesis
    using assms g c
    by (auto simp: ledger_def turbo_iteration_def Let_def offsets_follow_append
        acknowledged_append split: if_splits option.splits)
qed

lemma auto_iteration_within_bounds:
  assumes "within_bounds s" and "auto_iteration w s = (f, s')"
  shows "within_bounds s'"
  using assms
  by (auto simp: within_bounds_def auto_iteration_def Let_def split: if_splits prod.splits)

lemma attempts_append: "attempts (xs @ ys) = attempts xs + attempts ys"
  by (induction xs rule: attempts.induct) auto

lemma answers_auto_append:
  "answers_auto w c (xs @ ys) = (answers_auto w c xs \<and> answers_auto w (c + attempts xs) ys)"
  by (induction w c xs rule: answers_auto.induct) (auto simp: algebra_simps)

lemma answers_turbo_append:
  "answers_turbo w c (xs @ ys) = (answers_turbo w c xs \<and> answers_turbo w (c + attempts xs) ys)"
  by (induction w c xs rule: answers_turbo.induct) (auto simp: algebra_simps)

lemma generate_turbo_batch_statement:
  "generate_turbo_batch w k b =
     (if select_ordered_page (tables w ''raw'') b k = [] then (None, 0)
      else (Some (turbo_statement w (select_ordered_page (tables w ''raw'') b k)),
            int (length (select_ordered_page (tables w ''raw'') b k))))"
  by (simp add: generate_turbo_batch_def turbo_statement_def Let_def)

lemma turbo_statement_not_empty: "turbo_statement w rows \<noteq> []"
  by (simp add: turbo_statement_def)

lemma auto_iteration_told:
  assumes "told_auto w s" and "auto_iteration w s = (f, s')"
  shows "told_auto w s'"
  using assms
  by (auto simp: told_auto_def auto_iteration_def generate_and_execute_batch_def Let_def
      answers_auto_append attempts_append split: if_splits prod.splits)

lemma turbo_iteration_told_continue:
  assumes "told_turbo w s" and "turbo_iteration w s = (Continue, s')"
  shows "told_turbo w s'"
  using assms
  by (auto simp: told_turbo_def turbo_iteration_def generate_turbo_batch_statement Let_def
      turbo_statement_not_empty answers_turbo_append attempts_append split: if_splits)

lemma turbo_iteration_break:
  assumes "turbo_iteration w s = (Break, s')"
  shows "s' = s\<lparr>batch_count := batch_count s + 1\<rparr>"
  using assms
  by (auto simp: turbo_iteration_def generate_turbo_batch_statement Let_def
      turbo_statement_not_empty split: if_splits)

lemma turbo_prefix_invariant:
  assumes "\<And>s s'. P s \<Longrightarrow> turbo_iteration w s = (Continue, s') \<Longrightarrow> P s'"
    and "\<And>s s'. P s \<Longrightarrow> turbo_iteration w s = (Break, s') \<Longrightarrow> Q s'"
    and "\<And>s. P s \<Longrightarrow> Q s"
    and "P s"
  shows "Q (turbo_prefix fuel w target_total s)"
  using assms(4)
proof (induction fuel arbitrary: s)
  case 0
  then show ?case using assms(3) by simp
next
  case (Suc fuel)
  show ?case
  proof (cases "current_offset s < target_total")
    case False
    then show ?thesis using Suc.prems assms(3) by simp
  next
    case True
    obtain f s1 where it: "turbo_iteration w s = (f, s1)" by (cases "turbo_iteration w s")
    show ?thesis
    proof (cases f)
      case Break
      then show ?thesis using True it assms(2)[OF Suc.prems] by simp
    next
      case Continue
      have "P s1" using assms(1)[OF Suc.prems] it Continue by simp
      then show ?thesis using True it Continue Suc.IH by simp
    qed
  qed
qed

lemma turbo_loop_is_prefix:
  "turbo_loop fuel w target_total s = Some s' \<Longrightarrow> turbo_prefix fuel w target_total s = s'"
proof (induction fuel arbitrary: s)
  case 0
  then show ?case by simp
next
  case (Suc fuel)
  then show ?case
    by (cases "turbo_iteration w s"; cases "fst (turbo_iteration w s)")
       (auto split: if_splits)
qed

subsection \<open>Concrete runs\<close>

lemma sample_table_sorted: "order_by_id (sample_table n) = sample_table n"
proof -
  have "sorted (map (\<lambda>r. sql_order_key (r_id r)) (sample_table n))"
    by (simp add: sample_table_def sample_row_def sorted_map comp_def sorted_wrt_map
        less_eq_prod_def sorted_wrt_mono_rel[OF _ sorted_wrt_upt])
  then show ?thesis by (simp add: order_by_id_def sort_key_id_if_sorted)
qed

lemma upt_156: "[156..<158] = [156, 157::nat]"
  by code_simp

lemma sample_page_156:
  assumes "2 \<le> lim"
  shows "select_ordered_page (sample_table 158) lim 156
           = [sample_row (PyInt 156), sample_row (PyInt 157)]"
proof -
  have d: "drop 156 (sample_table 158) = [sample_row (PyInt 156), sample_row (PyInt 157)]"
  proof -
    have "drop 156 (sample_table 158)
            = map (\<lambda>i. sample_row (PyInt (int i))) (drop 156 [0..<158])"
      unfolding sample_table_def by (rule drop_map)
    also have "drop 156 [0..<158] = [156, 157::nat]"
      by (simp only: drop_upt) (simp add: upt_156)
    finally show ?thesis by simp
  qed
  have n: "2 \<le> nat lim" using assms by simp
  show ?thesis using assms n
    by (simp add: select_ordered_page_def sample_table_sorted sql_limit_offset_def d)
qed

lemma sample_page_158: "select_ordered_page (sample_table 158) lim 158 = []"
  by (simp add: select_ordered_page_def sample_table_sorted sql_limit_offset_def Let_def)
     (simp add: sample_table_def)

lemma sample_batch_156:
  assumes "2 \<le> b"
  shows "generate_and_execute_batch (sample_world (sample_table 158) ok) c 156 b
           = (ok c, 2, insert_statement (sample_world (sample_table 158) ok)
                [sample_row (PyInt 156), sample_row (PyInt 157)])"
  using assms
  by (simp add: generate_and_execute_batch_def sample_page_156 Let_def)
     (simp add: sample_world_def sample_page_156)

lemma sample_batch_158:
  "generate_and_execute_batch (sample_world (sample_table 158) ok) c 158 b
           = (False, 0, ''No more records'')"
  by (simp add: generate_and_execute_batch_def Let_def)
     (simp add: sample_world_def sample_page_158)

lemma run_recover:
  "continuous_auto_migrate (sample_world (sample_table 158) (\<lambda>n. 2 < n))
     = \<lparr>current_offset = 158, batch_size = 1000, batch_count = 6, total_processed = 2,
        journal = [Attempt 156 5000 2 False, Sleep 5, Attempt 156 2500 2 False, Sleep 5,
                   Attempt 156 1250 2 True, Sleep 1, Attempt 158 1250 0 False, Sleep 5,
                   Attempt 158 1000 0 False, Sleep 5, Attempt 158 1000 0 False],
        consecutive_failures = 3\<rparr>"
  by (simp add: continuous_auto_migrate_def auto_loop.simps auto_iteration_def
      sample_batch_156 sample_batch_158 Let_def)

lemma run_all_fail:
  "continuous_auto_migrate (sample_world (sample_table 158) (\<lambda>n. False))
     = \<lparr>current_offset = 156, batch_size = 1250, batch_count = 3, total_processed = 0,
        journal = [Attempt 156 5000 2 False, Sleep 5, Attempt 156 2500 2 False, Sleep 5,
                   Attempt 156 1250 2 False],
        consecutive_failures = 3\<rparr>"
  by (simp add: continuous_auto_migrate_def auto_loop.simps auto_iteration_def
      sample_batch_156 sample_batch_158 Let_def)

lemma run_empty_table:
  "continuous_auto_migrate (sample_world [] (\<lambda>n. True))
     = \<lparr>current_offset = 156, batch_size = 1250, batch_count = 3, total_processed = 0,
        journal = [Attempt 156 5000 0 False, Sleep 5, Attempt 156 2500 0 False, Sleep 5,
                   Attempt 156 1250 0 False],
        consecutive_failures = 3\<rparr>"
  by code_simp

lemma sample_turbo_156:
  assumes "2 \<le> b"
  shows "\<exists>q. generate_turbo_batch (sample_world (sample_table 158) ok) 156 b = (Some q, 2)
              \<and> q \<noteq> []"
  using assms
  by (simp add: generate_turbo_batch_def Let_def)
     (simp add: sample_world_def sample_page_156)

lemma sample_turbo_158:
  "generate_turbo_batch (sample_world (sample_table 158) ok) 158 b = (None, 0)"
  by (simp add: generate_turbo_batch_def Let_def)
     (simp add: sample_world_def sample_page_158)

lemma turbo_run_recover:
  "continuous_turbo_migrate (Suc (Suc (Suc (Suc 0)))) (sample_world (sample_table 158) (\<lambda>n. 2 < n))
     = Some \<lparr>current_offset = 158, batch_size = 15000, batch_count = 4, total_processed = 2,
        journal = [Attempt 156 15000 2 False, Sleep 5, Attempt 156 15000 2 False, Sleep 5,
                   Attempt 156 15000 2 True, Sleep 1]\<rparr>"
proof -
  obtain q where q: "generate_turbo_batch (sample_world (sample_table 158) (\<lambda>n. 2 < n)) 156 15000
       = (Some q, 2)" "q \<noteq> []"
    using sample_turbo_156[of 15000 "\<lambda>n. 2 < n"] by auto
  have e: "execute_via_mcp_auto (sample_world (sample_table 158) (\<lambda>n. 2 < n)) c x = (2 < c)"
    for c x by (simp add: sample_world_def)
  show ?thesis
    by (simp add: continuous_turbo_migrate_def turbo_iteration_def q e sample_turbo_158 Let_def)
qed

lemma turbo_prefix_all_fail:
  "continuous_turbo_prefix (Suc (Suc 0)) (sample_world (sample_table 158) (\<lambda>n. False))
     = \<lparr>current_offset = 156, batch_size = 15000, batch_count = 2, total_processed = 0,
        journal = [Attempt 156 15000 2 False, Sleep 5, Attempt 156 15000 2 False, Sleep 5]\<rparr>"
proof -
  obtain q where q: "generate_turbo_batch (sample_world (sample_table 158) (\<lambda>n. False)) 156 15000
       = (Some q, 2)" "q \<noteq> []"
    using sample_turbo_156[of 15000 "\<lambda>n. False"] by auto
  have e: "execute_via_mcp_auto (sample_world (sample_table 158) (\<lambda>n. False)) c x = False"
    for c x by (simp add: sample_world_def)
  show ?thesis
    by (simp add: continuous_turbo_prefix_def turbo_iteration_def q e Let_def)
qed

lemma turbo_never_ends_all_fail:
  "continuous_turbo_migrate fuel (sample_world (sample_table 158) (\<lambda>n. False)) = None"
proof -
  let ?w = "sample_world (sample_table 158) (\<lambda>n. False)"
  obtain q where q: "generate_turbo_batch ?w 156 15000 = (Some q, 2)" "q \<noteq> []"
    using sample_turbo_156[of 15000 "\<lambda>n. False"] by auto
  have e: "execute_via_mcp_auto ?w c x = False" for c x by (simp add: sample_world_def)
  have "turbo_loop fuel ?w 1736174 s = None"
    if "current_offset s = 156" "batch_size s = 15000" for s
    using that
  proof (induction fuel arbitrary: s)
    case 0
    then show ?case by simp
  next
    case (Suc fuel)
    then show ?case by (simp add: turbo_iteration_def q e Let_def)
  qed
  then show ?thesis by (simp add: continuous_turbo_migrate_def)
qed

subsection \<open>Offsets\<close>

text \<open>
  Claim C1. In an iteration of either loop, the offset moves exactly when the page was
  not empty and the Executor Client, called with the statement built from that page,
  reported success, and then it moves by the number of rows of the page; when the
  Executor Client reports failure the offset is unchanged. Over a whole run of
  \<open>continuous_auto_migrate\<close>, and over \<open>continuous_turbo_migrate\<close> after any number of
  iterations, ended or not: the flag of every batch is the Executor Client's answer, the
  first batch is fetched at 156, the one after a failed batch at the same offset again,
  the one after a successful batch at that offset plus the number of rows of its page,
  and the offset of the loop is 156 plus the rows of the successful batches, which is also
  what \<open>total_processed\<close> counts.
\<close>

theorem offset_moves_only_after_success:
  "current_offset (snd (auto_iteration w s))
     = current_offset s
       + (if select_ordered_page (tables w ''raw'') (batch_size s) (current_offset s) \<noteq> []
             \<and> fst (execute_mcp_batch w (batch_count s + 1)
                   (insert_statement w
                      (select_ordered_page (tables w ''raw'') (batch_size s) (current_offset s))))
          then int (length
                 (select_ordered_page (tables w ''raw'') (batch_size s) (current_offset s)))
          else 0)
   \<and> current_offset (snd (turbo_iteration w t))
     = current_offset t
       + (if select_ordered_page (tables w ''raw'') (batch_size t) (current_offset t) \<noteq> []
             \<and> execute_via_mcp_auto w (batch_count t + 1)
                   (turbo_statement w
                      (select_ordered_page (tables w ''raw'') (batch_size t) (current_offset t)))
          then int (length
                 (select_ordered_page (tables w ''raw'') (batch_size t) (current_offset t)))
          else 0)
   \<and> ledger w 156 (continuous_auto_migrate w)
   \<and> answers_auto w 0 (journal (continuous_auto_migrate w))
   \<and> (\<forall>fuel. ledger w 156 (continuous_turbo_prefix fuel w)
               \<and> answers_turbo w 0 (journal (continuous_turbo_prefix fuel w)))
   \<and> (\<forall>fuel s'. continuous_turbo_migrate fuel w = Some s'
                  \<longrightarrow> continuous_turbo_prefix fuel w = s')"
proof -
  have ia: "current_offset (snd (auto_iteration w s))
     = current_offset s
       + (if select_ordered_page (tables w ''raw'') (batch_size s) (current_offset s) \<noteq> []
             \<and> fst (execute_mcp_batch w (batch_count s + 1)
                   (insert_statement w
                      (select_ordered_page (tables w ''raw'') (batch_size s) (current_offset s))))
          then int (length
                 (select_ordered_page (tables w ''raw'') (batch_size s) (current_offset s)))
          else 0)"
    by (auto simp: auto_iteration_def generate_and_execute_batch_def Let_def
        split: prod.splits)
  have it: "current_offset (snd (turbo_iteration w t))
     = current_offset t
       + (if select_ordered_page (tables w ''raw'') (batch_size t) (current_offset t) \<noteq> []
             \<and> execute_via_mcp_auto w (batch_count t + 1)
                   (turbo_statement w
                      (select_ordered_page (tables w ''raw'') (batch_size t) (current_offset t)))
          then int (length
                 (select_ordered_page (tables w ''raw'') (batch_size t) (current_offset t)))
          else 0)"
    by (auto simp: turbo_iteration_def generate_turbo_batch_statement Let_def
        turbo_statement_not_empty)
  have a: "ledger w 156 (continuous_auto_migrate w) \<and> told_auto w (continuous_auto_migrate w)"
    unfolding continuous_auto_migrate_def
  proof (rule auto_loop_invariant[where P = "\<lambda>s. ledger w 156 s \<and> told_auto w s"])
    show "ledger w 156 \<lparr>current_offset = 156, batch_size = 5000, batch_count = 0,
        total_processed = 0, journal = [], consecutive_failures = 0\<rparr>
      \<and> told_auto w \<lparr>current_offset = 156, batch_size = 5000, batch_count = 0,
        total_processed = 0, journal = [], consecutive_failures = 0\<rparr>"
      by (simp add: ledger_def told_auto_def)
  next
    fix s f s'
    assume "ledger w 156 s \<and> told_auto w s" and "auto_iteration w s = (f, s')"
    then show "ledger w 156 s' \<and> told_auto w s'"
      using auto_iteration_ledger auto_iteration_told by blast
  qed
  have p: "ledger w 156 (continuous_turbo_prefix fuel w)
           \<and> answers_turbo w 0 (journal (continuous_turbo_prefix fuel w))" for fuel
    unfolding continuous_turbo_prefix_def
  proof (rule turbo_prefix_invariant[where P = "\<lambda>s. ledger w 156 s \<and> told_turbo w s"])
    show "ledger w 156 \<lparr>current_offset = 156, batch_size = 15000, batch_count = 0,
        total_processed = 0, journal = []\<rparr>
      \<and> told_turbo w \<lparr>current_offset = 156, batch_size = 15000, batch_count = 0,
        total_processed = 0, journal = []\<rparr>"
      by (simp add: ledger_def told_turbo_def)
  next
    fix s s'
    assume "ledger w 156 s \<and> told_turbo w s" and "turbo_iteration w s = (Continue, s')"
    then show "ledger w 156 s' \<and> told_turbo w s'"
      using turbo_iteration_ledger turbo_iteration_told_continue by blast
  next
    fix s s'
    assume h: "ledger w 156 s \<and> told_turbo w s" and b: "turbo_iteration w s = (Break, s')"
    have "s' = s\<lparr>batch_count := batch_count s + 1\<rparr>" using b by (rule turbo_iteration_break)
    then show "ledger w 156 s' \<and> answers_turbo w 0 (journal s')"
      using h by (simp add: ledger_def told_turbo_def)
  next
    fix s
    assume "ledger w 156 s \<and> told_turbo w s"
    then show "ledger w 156 s \<and> answers_turbo w 0 (journal s)"
      by (simp add: told_turbo_def)
  qed
  have l: "continuous_turbo_prefix fuel w = s'"
    if "continuous_turbo_migrate fuel w = Some s'" for fuel s'
    using that
    by (simp add: continuous_turbo_migrate_def continuous_turbo_prefix_def turbo_loop_is_prefix)
  show ?thesis using ia it a p l by (simp add: told_auto_def)
qed

theorem offset_moves_only_after_success_witness:
  "continuous_turbo_migrate (Suc (Suc (Suc (Suc 0)))) (sample_world (sample_table 158) (\<lambda>n. 2 < n))
     = Some \<lparr>current_offset = 158, batch_size = 15000, batch_count = 4, total_processed = 2,
        journal = [Attempt 156 15000 2 False, Sleep 5, Attempt 156 15000 2 False, Sleep 5,
                   Attempt 156 15000 2 True, Sleep 1]\<rparr>
   \<and> continuous_turbo_prefix (Suc (Suc (Suc (Suc 0))))
        (sample_world (sample_table 158) (\<lambda>n. 2 < n))
     = \<lparr>current_offset = 158, batch_size = 15000, batch_count = 4, total_processed = 2,
        journal = [Attempt 156 15000 2 False, Sleep 5, Attempt 156 15000 2 False, Sleep 5,
                   Attempt 156 15000 2 True, Sleep 1]\<rparr>
   \<and> ledger (sample_world (sample_table 158) (\<lambda>n. 2 < n)) 156
        \<lparr>current_offset = 158, batch_size = 15000, batch_count = 4, total_processed = 2,
        journal = [Attempt 156 15000 2 False, Sleep 5, Attempt 156 15000 2 False, Sleep 5,
                   Attempt 156 15000 2 True, Sleep 1]\<rparr>
   \<and> answers_turbo (sample_world (sample_table 158) (\<lambda>n. 2 < n)) 0
        [Attempt 156 15000 2 False, Sleep 5, Attempt 156 15000 2 False, Sleep 5,
         Attempt 156 15000 2 True, Sleep 1]
   \<and> ledger (sample_world (sample_table 158) (\<lambda>n. 2 < n)) 156
        (continuous_auto_migrate (sample_world (sample_table 158) (\<lambda>n. 2 < n)))
   \<and> answers_auto (sample_world (sample_table 158) (\<lambda>n. 2 < n)) 0
        (journal (continuous_auto_migrate (sample_world (sample_table 158) (\<lambda>n. 2 < n))))
   \<and> ledger (sample_world (sample_table 158) (\<lambda>n. False)) 156
        \<lparr>current_offset = 156, batch_size = 15000, batch_count = 2, total_processed = 0,
        journal = [Attempt 156 15000 2 False, Sleep 5, Attempt 156 15000 2 False, Sleep 5]\<rparr>"
proof -
  let ?w = "sample_world (sample_table 158) (\<lambda>n. 2 < n)"
  let ?v = "sample_world (sample_table 158) (\<lambda>n. False)"
  let ?T = "\<lparr>current_offset = 158, batch_size = 15000, batch_count = 4, total_processed = 2,
        journal = [Attempt 156 15000 2 False, Sleep 5, Attempt 156 15000 2 False, Sleep 5,
                   Attempt 156 15000 2 True, Sleep 1]\<rparr>"
  note r = turbo_run_recover
  note m = offset_moves_only_after_success[where w = ?w]
  note n = offset_moves_only_after_success[where w = ?v]
  have p: "continuous_turbo_prefix (Suc (Suc (Suc (Suc 0)))) ?w = ?T"
    using m r by blast
  have l: "ledger ?w 156 (continuous_turbo_prefix (Suc (Suc (Suc (Suc 0)))) ?w)
      \<and> answers_turbo ?w 0 (journal (continuous_turbo_prefix (Suc (Suc (Suc (Suc 0)))) ?w))"
    using m by blast
  have a: "ledger ?w 156 (continuous_auto_migrate ?w)
      \<and> answers_auto ?w 0 (journal (continuous_auto_migrate ?w))"
    using m by blast
  have f: "ledger ?v 156 (continuous_turbo_prefix (Suc (Suc 0)) ?v)"
    using n by blast
  show ?thesis
    using r p l a f by (simp add: turbo_prefix_all_fail)
qed

subsection \<open>Batch size\<close>

text \<open>
  Claim C7. Whatever the table holds and whatever the channel answers, the batch size of
  \<open>continuous_auto_migrate\<close> stays between the floor 1000 and the ceiling 10000: every
  batch of the run is fetched with a limit in that range, and so is the batch size the
  loop ends with.
\<close>

theorem batch_size_within_bounds:
  "1000 \<le> batch_size (continuous_auto_migrate w)
   \<and> batch_size (continuous_auto_migrate w) \<le> 10000
   \<and> list_all (limit_within 1000 10000) (journal (continuous_auto_migrate w))"
proof -
  have "within_bounds (continuous_auto_migrate w)"
    unfolding continuous_auto_migrate_def
  proof (rule auto_loop_invariant[where P = within_bounds])
    show "within_bounds \<lparr>current_offset = 156, batch_size = 5000, batch_count = 0,
        total_processed = 0, journal = [], consecutive_failures = 0\<rparr>"
      by (simp add: within_bounds_def)
  qed (rule auto_iteration_within_bounds)
  then show ?thesis by (simp add: within_bounds_def)
qed

subsection \<open>Consecutive failures\<close>

text \<open>
  Claim C8, as stated, fails. On a table of 158 rows and a channel that always fails,
  \<open>continuous_auto_migrate\<close> stops after the third failed batch, at offset 156, with
  \<open>consecutive_failures = 3\<close>: the counter has reached 3 and does not exceed it.
\<close>

theorem stops_at_third_failure:
  "consecutive_failures (continuous_auto_migrate (sample_world (sample_table 158) (\<lambda>n. False))) = 3
   \<and> \<not> 3 < consecutive_failures
            (continuous_auto_migrate (sample_world (sample_table 158) (\<lambda>n. False)))
   \<and> current_offset (continuous_auto_migrate (sample_world (sample_table 158) (\<lambda>n. False))) = 156
   \<and> journal (continuous_auto_migrate (sample_world (sample_table 158) (\<lambda>n. False)))
        = [Attempt 156 5000 2 False, Sleep 5, Attempt 156 2500 2 False, Sleep 5,
           Attempt 156 1250 2 False]"
  by (simp add: run_all_fail)

text \<open>
  Claim C8, amended. An iteration that is told of a failure adds one to
  \<open>consecutive_failures\<close>, and a successful one sets it to 0 and goes on. The loop stops
  after a failed batch exactly when the counter has then reached 3 (\<open>>= 3\<close>); with fewer
  than 3 consecutive failures it goes on, so a batch that fails twice and succeeds on the
  third attempt does not stop the migration.
\<close>

theorem failure_counter_and_threshold:
  assumes "generate_and_execute_batch w (batch_count s + 1) (current_offset s) (batch_size s)
             = (ok, n, r)"
  shows "(ok \<longrightarrow> fst (auto_iteration w s) = Continue
                \<and> consecutive_failures (snd (auto_iteration w s)) = 0)
         \<and> (\<not> ok \<longrightarrow>
              consecutive_failures (snd (auto_iteration w s)) = consecutive_failures s + 1
              \<and> (fst (auto_iteration w s) = Break) = (3 \<le> consecutive_failures s + 1))
         \<and> (\<not> ok \<and> consecutive_failures s + 1 < 3 \<longrightarrow> fst (auto_iteration w s) = Continue)"
  using assms by (auto simp: auto_iteration_def Let_def)

theorem failure_counter_and_threshold_witness:
  "generate_and_execute_batch (sample_world (sample_table 158) (\<lambda>n. 2 < n)) (0 + 1) 156 5000
     = (False, 2, insert_statement (sample_world (sample_table 158) (\<lambda>n. 2 < n))
                [sample_row (PyInt 156), sample_row (PyInt 157)])
   \<and> consecutive_failures (snd (auto_iteration (sample_world (sample_table 158) (\<lambda>n. 2 < n))
         \<lparr>current_offset = 156, batch_size = 5000, batch_count = 0, total_processed = 0,
          journal = [], consecutive_failures = 0\<rparr>)) = 1
   \<and> fst (auto_iteration (sample_world (sample_table 158) (\<lambda>n. 2 < n))
         \<lparr>current_offset = 156, batch_size = 5000, batch_count = 0, total_processed = 0,
          journal = [], consecutive_failures = 0\<rparr>) = Continue"
proof -
  let ?w = "sample_world (sample_table 158) (\<lambda>n. 2 < n)"
  let ?s = "\<lparr>current_offset = 156, batch_size = 5000, batch_count = 0, total_processed = 0,
          journal = [], consecutive_failures = 0\<rparr>"
  have g: "generate_and_execute_batch ?w (batch_count ?s + 1) (current_offset ?s) (batch_size ?s)
     = (False, 2, insert_statement ?w [sample_row (PyInt 156), sample_row (PyInt 157)])"
    by (simp add: sample_batch_156)
  show ?thesis
    using failure_counter_and_threshold[OF g] g by simp
qed

subsection \<open>Retry\<close>

text \<open>
  Claim C9, as stated, fails. On a table of 158 rows and a channel that always fails, the
  delays that \<open>continuous_auto_migrate\<close> sleeps after its first and second failure are 5
  and 5 seconds: the delay does not grow with the run of failures.
\<close>

theorem retry_delay_does_not_grow:
  "retry_delays (journal (continuous_auto_migrate (sample_world (sample_table 158) (\<lambda>n. False))))
     = [5, 5]
   \<and> \<not> sorted_wrt (<) (retry_delays
         (journal (continuous_auto_migrate (sample_world (sample_table 158) (\<lambda>n. False)))))"
  by (simp add: run_all_fail)

text \<open>
  Claim C9, amended. When a batch of \<open>continuous_auto_migrate\<close> fails and fewer than 3
  failures have followed each other, the loop halves \<open>batch_size\<close> (integer division) but
  not below the floor 1000, sleeps a fixed 5 seconds and goes on at the same offset. When
  the channel fails a batch of \<open>continuous_turbo_migrate\<close>, the loop sleeps a fixed 5
  seconds and goes on at the same offset with the same batch size.
\<close>

theorem retry_halves_and_sleeps_five:
  "(generate_and_execute_batch w (batch_count s + 1) (current_offset s) (batch_size s)
        = (False, n, r) \<and> consecutive_failures s + 1 < 3
      \<longrightarrow> auto_iteration w s =
            (Continue, s\<lparr>batch_count := batch_count s + 1,
                        journal := journal s
                          @ [Attempt (current_offset s) (batch_size s) n False, Sleep 5],
                        consecutive_failures := consecutive_failures s + 1,
                        batch_size := max (batch_size s div 2) 1000\<rparr>))
   \<and> (generate_turbo_batch w (current_offset t) (batch_size t) = (Some q, m)
        \<and> q \<noteq> [] \<and> m \<noteq> 0 \<and> \<not> execute_via_mcp_auto w (batch_count t + 1) q
      \<longrightarrow> turbo_iteration w t =
            (Continue, t\<lparr>batch_count := batch_count t + 1,
                        journal := journal t
                          @ [Attempt (current_offset t) (batch_size t) m False, Sleep 5]\<rparr>))"
  by (auto simp: auto_iteration_def turbo_iteration_def Let_def)

theorem retry_halves_and_sleeps_five_witness:
  "auto_iteration (sample_world (sample_table 158) (\<lambda>n. False))
       \<lparr>current_offset = 156, batch_size = 5000, batch_count = 0, total_processed = 0,
        journal = [], consecutive_failures = 0\<rparr>
     = (Continue, \<lparr>current_offset = 156, batch_size = 2500, batch_count = 1, total_processed = 0,
        journal = [Attempt 156 5000 2 False, Sleep 5], consecutive_failures = 1\<rparr>)
   \<and> (\<exists>q. generate_turbo_batch (sample_world (sample_table 158) (\<lambda>n. False)) 156 15000
            = (Some q, 2) \<and> q \<noteq> [])
   \<and> turbo_iteration (sample_world (sample_table 158) (\<lambda>n. False))
       \<lparr>current_offset = 156, batch_size = 15000, batch_count = 0, total_processed = 0,
        journal = []\<rparr>
     = (Continue, \<lparr>current_offset = 156, batch_size = 15000, batch_count = 1,
        total_processed = 0, journal = [Attempt 156 15000 2 False, Sleep 5]\<rparr>)"
proof -
  let ?w = "sample_world (sample_table 158) (\<lambda>n. False)"
  let ?s = "\<lparr>current_offset = 156, batch_size = 5000, batch_count = 0, total_processed = 0,
        journal = [], consecutive_failures = 0\<rparr>"
  let ?t = "\<lparr>current_offset = 156, batch_size = 15000, batch_count = 0, total_processed = 0,
        journal = []\<rparr>"
  obtain q where q: "generate_turbo_batch ?w 156 15000 = (Some q, 2)" "q \<noteq> []"
    using sample_turbo_156[of 15000 "\<lambda>n. False"] by auto
  have e: "\<not> execute_via_mcp_auto ?w c x" for c x by (simp add: sample_world_def)
  have g: "generate_and_execute_batch ?w (batch_count ?s + 1) (current_offset ?s) (batch_size ?s)
     = (False, 2, insert_statement ?w [sample_row (PyInt 156), sample_row (PyInt 157)])"
    by (simp add: sample_batch_156)
  show ?thesis
    using retry_halves_and_sleeps_five[of ?w ?s 2
        "insert_statement ?w [sample_row (PyInt 156), sample_row (PyInt 157)]" ?t q 2] g q e
    by auto
qed

subsection \<open>The empty page\<close>

lemma auto_iteration_empty_page:
  assumes "select_ordered_page (tables w ''raw'') (batch_size s) (current_offset s) = []"
  shows "consecutive_failures (snd (auto_iteration w s)) = consecutive_failures s + 1
         \<and> current_offset (snd (auto_iteration w s)) = current_offset s
         \<and> (fst (auto_iteration w s) = Break) = (3 \<le> consecutive_failures s + 1)"
  using assms
  by (simp add: auto_iteration_def generate_and_execute_batch_def Let_def)

lemma turbo_iteration_empty_page:
  assumes "select_ordered_page (tables w ''raw'') (batch_size s) (current_offset s) = []"
  shows "turbo_iteration w s = (Break, s\<lparr>batch_count := batch_count s + 1\<rparr>)"
  using assms
  by (simp add: turbo_iteration_def generate_turbo_batch_def Let_def)

text \<open>
  Claim C3. A page fetched at or past the end of the table is empty, and the loop of
  auto-mcp-turbo.py ends on it at once. The loop of mcp-auto-execute.py does not: for an
  empty page \<open>generate_and_execute_batch\<close> returns \<open>(False, 0, "No more records")\<close>, and
  the loop takes the branch of a failed batch. On an empty \<open>raw\<close> table, with a channel
  that would accept every statement, \<open>continuous_auto_migrate\<close> counts three
  consecutive failures, halves the batch size twice, sleeps 5 seconds twice and stops on
  the failure threshold.
\<close>

theorem empty_page_counted_as_failure:
  "select_ordered_page (tables (sample_world [] (\<lambda>n. True)) ''raw'') 5000 156 = []
   \<and> continuous_auto_migrate (sample_world [] (\<lambda>n. True))
     = \<lparr>current_offset = 156, batch_size = 1250, batch_count = 3, total_processed = 0,
        journal = [Attempt 156 5000 0 False, Sleep 5, Attempt 156 2500 0 False, Sleep 5,
                   Attempt 156 1250 0 False],
        consecutive_failures = 3\<rparr>
   \<and> continuous_turbo_migrate (Suc 0) (sample_world [] (\<lambda>n. True))
     = Some \<lparr>current_offset = 156, batch_size = 15000, batch_count = 1, total_processed = 0,
        journal = []\<rparr>"
proof -
  let ?w = "sample_world [] (\<lambda>n. True)"
  have p: "select_ordered_page (tables ?w ''raw'') b k = []" for b k
    by (simp add: select_ordered_page_def order_by_id_def sql_limit_offset_def sample_world_def)
  have t: "continuous_turbo_migrate (Suc 0) ?w
     = Some \<lparr>current_offset = 156, batch_size = 15000, batch_count = 1, total_processed = 0,
        journal = []\<rparr>"
    by (simp add: continuous_turbo_migrate_def turbo_iteration_empty_page p)
  show ?thesis using p t run_empty_table by simp
qed

end
